theory Spec2Isabelle
  imports Complex_Main
begin

section \<open>JavaScript values\<close>

text \<open>
  The metrics library is JavaScript: every number is an IEEE-754 double and every
  argument is dynamically typed. A number is modelled as \<open>NaN\<close>, one of the two
  infinities, or a finite value carried as a real.

  What the operations do at the special values is fixed by IEEE-754 and ECMAScript
  (\<open>Infinity - Infinity\<close>, \<open>0 / 0\<close> and \<open>Infinity * 0\<close> are \<open>NaN\<close>, every comparison
  with \<open>NaN\<close> is false, \<open>x / 0\<close> is an infinity) and is written out below. What they do
  on finite operands (rounding to 53 bits, overflow to an infinity, underflow to zero,
  the approximation \<open>Math.pow\<close> uses, the double that a decimal literal denotes) belongs
  to the JavaScript engine, not to the library: it is a parameter \<open>ar\<close> of every
  function that computes. The library runs with \<open>ar\<close> the binary64 arithmetic of the
  engine; a theorem stated for every \<open>ar\<close> holds for it. \<open>exact\<close> is the arithmetic
  without rounding, overflow or underflow; a theorem stated for \<open>exact\<close> describes the
  computation in the reals. The sign of a zero is not modelled: a zero divisor counts as
  \<open>+0\<close>.
\<close>

datatype jsnum = NaN | PInf | NInf | Fin real

text \<open>
  The arithmetic on finite operands: sum, product, quotient (divisor not zero),
  \<open>Math.pow\<close> (base and exponent not zero, exponent an integer when the base is
  negative), \<open>Math.sqrt\<close> (argument not negative), and the value of a decimal literal.
\<close>

record arith =
  fl_add :: "real \<Rightarrow> real \<Rightarrow> jsnum"
  fl_mul :: "real \<Rightarrow> real \<Rightarrow> jsnum"
  fl_div :: "real \<Rightarrow> real \<Rightarrow> jsnum"
  fl_pow :: "real \<Rightarrow> real \<Rightarrow> jsnum"
  fl_sqrt :: "real \<Rightarrow> jsnum"
  fl_lit :: "real \<Rightarrow> real"

definition exact :: arith where
  "exact =
     \<lparr>fl_add = (\<lambda>x y. Fin (x + y)),
      fl_mul = (\<lambda>x y. Fin (x * y)),
      fl_div = (\<lambda>x y. Fin (x / y)),
      fl_pow = (\<lambda>x y. Fin (if 0 < x then x powr y else x powi \<lfloor>y\<rfloor>)),
      fl_sqrt = (\<lambda>x. Fin (sqrt x)),
      fl_lit = (\<lambda>x. x)\<rparr>"

fun js_neg :: "jsnum \<Rightarrow> jsnum" where
  "js_neg NaN = NaN"
| "js_neg PInf = NInf"
| "js_neg NInf = PInf"
| "js_neg (Fin x) = Fin (- x)"

fun js_add :: "arith \<Rightarrow> jsnum \<Rightarrow> jsnum \<Rightarrow> jsnum" where
  "js_add ar NaN _ = NaN"
| "js_add ar _ NaN = NaN"
| "js_add ar PInf NInf = NaN"
| "js_add ar NInf PInf = NaN"
| "js_add ar PInf _ = PInf"
| "js_add ar NInf _ = NInf"
| "js_add ar (Fin x) PInf = PInf"
| "js_add ar (Fin x) NInf = NInf"
| "js_add ar (Fin x) (Fin y) = fl_add ar x y"

text \<open>\<open>a - b\<close> is \<open>a + (-b)\<close> in IEEE-754.\<close>

definition js_sub :: "arith \<Rightarrow> jsnum \<Rightarrow> jsnum \<Rightarrow> jsnum" where
  "js_sub ar a b = js_add ar a (js_neg b)"

text \<open>The product of an infinity and a finite value: its sign, or \<open>NaN\<close> at zero.\<close>

definition inf_times :: "bool \<Rightarrow> real \<Rightarrow> jsnum" where
  "inf_times positive x =
     (if x = 0 then NaN else if (0 < x) = positive then PInf else NInf)"

fun js_mul :: "arith \<Rightarrow> jsnum \<Rightarrow> jsnum \<Rightarrow> jsnum" where
  "js_mul ar NaN _ = NaN"
| "js_mul ar _ NaN = NaN"
| "js_mul ar PInf PInf = PInf"
| "js_mul ar PInf NInf = NInf"
| "js_mul ar NInf PInf = NInf"
| "js_mul ar NInf NInf = PInf"
| "js_mul ar PInf (Fin y) = inf_times True y"
| "js_mul ar NInf (Fin y) = inf_times False y"
| "js_mul ar (Fin x) PInf = inf_times True x"
| "js_mul ar (Fin x) NInf = inf_times False x"
| "js_mul ar (Fin x) (Fin y) = fl_mul ar x y"

fun js_div :: "arith \<Rightarrow> jsnum \<Rightarrow> jsnum \<Rightarrow> jsnum" where
  "js_div ar NaN _ = NaN"
| "js_div ar _ NaN = NaN"
| "js_div ar PInf (Fin y) = (if 0 \<le> y then PInf else NInf)"
| "js_div ar NInf (Fin y) = (if 0 \<le> y then NInf else PInf)"
| "js_div ar PInf _ = NaN"
| "js_div ar NInf _ = NaN"
| "js_div ar (Fin x) PInf = Fin 0"
| "js_div ar (Fin x) NInf = Fin 0"
| "js_div ar (Fin x) (Fin y) =
     (if y = 0 then (if x = 0 then NaN else if 0 < x then PInf else NInf)
      else fl_div ar x y)"

fun js_lt :: "jsnum \<Rightarrow> jsnum \<Rightarrow> bool" where
  "js_lt NaN _ = False"
| "js_lt _ NaN = False"
| "js_lt PInf _ = False"
| "js_lt _ NInf = False"
| "js_lt NInf _ = True"
| "js_lt (Fin x) PInf = True"
| "js_lt (Fin x) (Fin y) = (x < y)"

definition js_gt :: "jsnum \<Rightarrow> jsnum \<Rightarrow> bool" where
  "js_gt a b = js_lt b a"

fun js_le :: "jsnum \<Rightarrow> jsnum \<Rightarrow> bool" where
  "js_le NaN _ = False"
| "js_le _ NaN = False"
| "js_le NInf _ = True"
| "js_le _ PInf = True"
| "js_le PInf _ = False"
| "js_le (Fin x) NInf = False"
| "js_le (Fin x) (Fin y) = (x \<le> y)"

definition js_ge :: "jsnum \<Rightarrow> jsnum \<Rightarrow> bool" where
  "js_ge a b = js_le b a"

fun js_abs :: "jsnum \<Rightarrow> jsnum" where
  "js_abs NaN = NaN"
| "js_abs PInf = PInf"
| "js_abs NInf = PInf"
| "js_abs (Fin x) = Fin \<bar>x\<bar>"

fun js_sqrt :: "arith \<Rightarrow> jsnum \<Rightarrow> jsnum" where
  "js_sqrt ar NaN = NaN"
| "js_sqrt ar PInf = PInf"
| "js_sqrt ar NInf = NaN"
| "js_sqrt ar (Fin x) = (if x < 0 then NaN else fl_sqrt ar x)"

fun js_isNaN :: "jsnum \<Rightarrow> bool" where
  "js_isNaN NaN = True"
| "js_isNaN _ = False"

text \<open>
  \<open>Math.pow(base, exponent)\<close>, case by case as ECMAScript's \<open>Number::exponentiate\<close>
  lists them (without the sign of a zero result).
\<close>

definition is_odd_integer :: "real \<Rightarrow> bool" where
  "is_odd_integer y = (y = of_int \<lfloor>y\<rfloor> \<and> odd \<lfloor>y\<rfloor>)"

fun Math_pow :: "arith \<Rightarrow> jsnum \<Rightarrow> jsnum \<Rightarrow> jsnum" where
  "Math_pow ar _ NaN = NaN"
| "Math_pow ar b (Fin y) =
     (if y = 0 then Fin 1
      else case b of
        NaN \<Rightarrow> NaN
      | PInf \<Rightarrow> (if 0 < y then PInf else Fin 0)
      | NInf \<Rightarrow> (if 0 < y then (if is_odd_integer y then NInf else PInf) else Fin 0)
      | Fin x \<Rightarrow>
          (if x = 0 then (if 0 < y then Fin 0 else PInf)
           else if 0 < x \<or> y = of_int \<lfloor>y\<rfloor> then fl_pow ar x y
           else NaN))"
| "Math_pow ar NaN PInf = NaN"
| "Math_pow ar PInf PInf = PInf"
| "Math_pow ar NInf PInf = PInf"
| "Math_pow ar (Fin x) PInf =
     (if 1 < \<bar>x\<bar> then PInf else if \<bar>x\<bar> = 1 then NaN else Fin 0)"
| "Math_pow ar NaN NInf = NaN"
| "Math_pow ar PInf NInf = Fin 0"
| "Math_pow ar NInf NInf = Fin 0"
| "Math_pow ar (Fin x) NInf =
     (if 1 < \<bar>x\<bar> then Fin 0 else if \<bar>x\<bar> = 1 then NaN else PInf)"

text \<open>
  A JavaScript value, as far as the library inspects one: the primitives, a \<open>Date\<close>
  (its time value in milliseconds, \<open>None\<close> for an invalid date, whose \<open>getTime()\<close>
  is \<open>NaN\<close>), a plain object (its own properties) and an array.
\<close>

datatype jsval =
    JUndefined
  | JNull
  | JBool bool
  | JNumber jsnum
  | JString string
  | JDate "int option"
  | JObject "(string \<times> jsval) list"
  | JArray "jsval list"

text \<open>\<open>typeof v\<close>.\<close>

fun typeof :: "jsval \<Rightarrow> string" where
  "typeof JUndefined = ''undefined''"
| "typeof JNull = ''object''"
| "typeof (JBool _) = ''boolean''"
| "typeof (JNumber _) = ''number''"
| "typeof (JString _) = ''string''"
| "typeof (JDate _) = ''object''"
| "typeof (JObject _) = ''object''"
| "typeof (JArray _) = ''object''"

text \<open>\<open>!v\<close> is \<open>\<not> truthy v\<close>: the falsy values are \<open>undefined\<close>, \<open>null\<close>,
  \<open>false\<close>, \<open>0\<close>, \<open>NaN\<close> and the empty string.\<close>

fun truthy :: "jsval \<Rightarrow> bool" where
  "truthy JUndefined = False"
| "truthy JNull = False"
| "truthy (JBool b) = b"
| "truthy (JNumber x) = (x \<noteq> NaN \<and> x \<noteq> Fin 0)"
| "truthy (JString s) = (s \<noteq> [])"
| "truthy (JDate _) = True"
| "truthy (JObject _) = True"
| "truthy (JArray _) = True"

text \<open>\<open>v.name\<close> for the property names the library reads (\<open>date\<close>, \<open>amount\<close>):
  the value stored in a plain object, \<open>undefined\<close> when it has none.\<close>

fun get_prop :: "jsval \<Rightarrow> string \<Rightarrow> jsval" where
  "get_prop (JObject props) name =
     (case map_of props name of Some v \<Rightarrow> v | None \<Rightarrow> JUndefined)"
| "get_prop _ name = JUndefined"

section \<open>Errors\<close>

text \<open>
  The library throws \<open>Error\<close> objects that differ only in their message; one constructor
  per message, with the label or the index the message interpolates.
\<close>

datatype error =
    NotPositiveNumber string      \<comment> \<open>\<open>${label} must be a positive number\<close>\<close>
  | NotNonNegativeNumber string   \<comment> \<open>\<open>${label} must be a non-negative number\<close>\<close>
  | NotValidDate string           \<comment> \<open>\<open>${label} must be a valid Date object\<close>\<close>
  | BadExpenseRatio               \<comment> \<open>\<open>Expense ratio must be a number between 0 and 1\<close>\<close>
  | StartNotBeforeEnd             \<comment> \<open>\<open>Start date must be before end date\<close>\<close>
  | TooFewCashflows               \<comment> \<open>\<open>Cashflows must be an array with at least 2 entries\<close>\<close>
  | MissingProperties nat         \<comment> \<open>\<open>Cashflow at index ${i} must have 'date' and 'amount' properties\<close>\<close>
  | CashflowBadDate nat           \<comment> \<open>\<open>Cashflow at index ${i} must have a valid Date for 'date'\<close>\<close>
  | CashflowBadAmount nat         \<comment> \<open>\<open>Cashflow at index ${i} must have a valid number for 'amount'\<close>\<close>
  | NotMixedSign                  \<comment> \<open>\<open>Cashflows must contain at least one positive and one negative amount\<close>\<close>
  | NoSolutionInRange             \<comment> \<open>\<open>Cannot calculate XIRR: No solution found in the search range\<close>\<close>
  | DoesNotConverge               \<comment> \<open>\<open>Cannot calculate XIRR: NPV does not converge to zero\<close>\<close>
  | TooFewReturns                 \<comment> \<open>\<open>Returns must be an array with at least 2 values\<close>\<close>
  | BadReturn nat                 \<comment> \<open>\<open>Return at index ${i} must be a valid number\<close>\<close>
  | BadRiskFreeRate               \<comment> \<open>\<open>Risk-free rate must be a valid number\<close>\<close>
  | TooFewValues                  \<comment> \<open>\<open>Values must be an array with at least 2 elements\<close>\<close>
  | BadValue nat                  \<comment> \<open>\<open>Value at index ${i} must be a non-negative number\<close>\<close>
  | TypeError                     \<comment> \<open>reading a property of \<open>undefined\<close>\<close>

section \<open>Validation and statistics helpers\<close>

text \<open>
  Each guard returns normally or throws. The model returns the value the guard let through
  (the number, or the date's time value), so the caller computes with what was checked.
  \<open>validateDate\<close>: \<open>!(date instanceof Date) || isNaN(date.getTime())\<close>.
\<close>

definition validateDate :: "jsval \<Rightarrow> string \<Rightarrow> error + int" where
  "validateDate date label =
     (case date of
        JDate (Some ms) \<Rightarrow> Inr ms
      | _ \<Rightarrow> Inl (NotValidDate label))"

text \<open>\<open>typeof value !== 'number' || value <= 0\<close>.\<close>

definition validatePositiveNumber :: "jsval \<Rightarrow> string \<Rightarrow> error + jsnum" where
  "validatePositiveNumber v label =
     (case v of
        JNumber x \<Rightarrow> (if js_le x (Fin 0) then Inl (NotPositiveNumber label) else Inr x)
      | _ \<Rightarrow> Inl (NotPositiveNumber label))"

text \<open>\<open>typeof value !== 'number' || value < 0\<close>.\<close>

definition validateNonNegativeNumber :: "jsval \<Rightarrow> string \<Rightarrow> error + jsnum" where
  "validateNonNegativeNumber v label =
     (case v of
        JNumber x \<Rightarrow> (if js_lt x (Fin 0) then Inl (NotNonNegativeNumber label) else Inr x)
      | _ \<Rightarrow> Inl (NotNonNegativeNumber label))"

text \<open>\<open>typeof expenseRatio !== 'number' || expenseRatio < 0 || expenseRatio >= 1\<close>.\<close>

definition validateExpenseRatio :: "jsval \<Rightarrow> error + jsnum" where
  "validateExpenseRatio v =
     (case v of
        JNumber x \<Rightarrow>
          (if js_lt x (Fin 0) \<or> js_ge x (Fin 1) then Inl BadExpenseRatio else Inr x)
      | _ \<Rightarrow> Inl BadExpenseRatio)"

text \<open>\<open>1000 * 60 * 60 * 24 * 365.25\<close> milliseconds: 31557600000. Every factor and every
  partial product is an integer below \<open>2\<^sup>5\<^sup>3\<close> or a multiple of a quarter, so the
  constant is this number in binary64 as well.\<close>

definition msPerYear :: real where
  "msPerYear = 1000 * 60 * 60 * 24 * 365.25"

text \<open>Both arguments are valid dates, given by their time values; \<open>endDate - startDate\<close>
  subtracts the two time values as numbers.\<close>

definition calculateYears :: "arith \<Rightarrow> int \<Rightarrow> int \<Rightarrow> jsnum" where
  "calculateYears ar startDate endDate =
     js_div ar (js_sub ar (Fin (of_int endDate)) (Fin (of_int startDate))) (Fin msPerYear)"

text \<open>A validated cashflow: the copy \<open>{ date: cf.date, amount: cf.amount }\<close> that
  \<open>calculateXIRR\<close> pushes, the date by its time value.\<close>

record cashflow =
  date :: int
  amount :: jsnum

definition npv :: "arith \<Rightarrow> jsnum \<Rightarrow> cashflow list \<Rightarrow> int \<Rightarrow> jsnum" where
  "npv ar r cashflows refDate =
     foldl (\<lambda>sum cf.
        (let t = js_div ar (js_sub ar (Fin (of_int (date cf))) (Fin (of_int refDate)))
                   (Fin (365.25 * 24 * 60 * 60 * 1000))
         in js_add ar sum (js_div ar (amount cf) (Math_pow ar (js_add ar (Fin 1) r) t))))
       (Fin 0) cashflows"

definition mean :: "arith \<Rightarrow> jsnum list \<Rightarrow> jsnum" where
  "mean ar arr =
     (if length arr = 0 then Fin 0
      else js_div ar (foldl (\<lambda>sum val. js_add ar sum val) (Fin 0) arr) (Fin (real (length arr))))"

definition stdDev :: "arith \<Rightarrow> jsnum list \<Rightarrow> jsnum" where
  "stdDev ar arr =
     (if length arr < 2 then Fin 0
      else
        (let avg = mean ar arr;
             variance =
               js_div ar
                 (foldl (\<lambda>sum val. js_add ar sum (Math_pow ar (js_sub ar val avg) (Fin 2))) (Fin 0) arr)
                 (Fin (real (length arr - 1)))
         in js_sqrt ar variance))"

text \<open>Sequencing of calls that may throw: the first error ends the computation.\<close>

fun and_then :: "error + 'a \<Rightarrow> ('a \<Rightarrow> error + 'b) \<Rightarrow> error + 'b" where
  "and_then (Inl e) f = Inl e"
| "and_then (Inr x) f = f x"

section \<open>Compound annual growth rate\<close>

text \<open>An absent \<open>expenseRatio\<close> argument is \<open>undefined\<close>.\<close>

definition calculateCAGR ::
  "arith \<Rightarrow> jsval \<Rightarrow> jsval \<Rightarrow> jsval \<Rightarrow> jsval \<Rightarrow> jsval \<Rightarrow> error + jsnum"
where
  "calculateCAGR ar initialValue finalValue startDate endDate expenseRatio =
     and_then (validatePositiveNumber initialValue ''Initial value'') (\<lambda>iv.
     and_then (validateNonNegativeNumber finalValue ''Final value'') (\<lambda>fv.
     and_then (validateDate startDate ''Start date'') (\<lambda>startMs.
     and_then (validateDate endDate ''End date'') (\<lambda>endMs.
       if startMs \<ge> endMs then Inl StartNotBeforeEnd
       else
         and_then
           (if expenseRatio \<noteq> JUndefined
            then and_then (validateExpenseRatio expenseRatio) (\<lambda>e. Inr (Some e))
            else Inr None) (\<lambda>ratio.
         (let years = calculateYears ar startMs endMs
          in if fv = Fin 0 then Inr (Fin (- 1))
             else
               (let cagr = js_sub ar (Math_pow ar (js_div ar fv iv) (js_div ar (Fin 1) years)) (Fin 1)
                in case ratio of
                     None \<Rightarrow> Inr cagr
                   | Some e \<Rightarrow>
                       Inr (js_sub ar (js_mul ar (js_add ar (Fin 1) cagr) (js_sub ar (Fin 1) e))
                              (Fin 1)))))))))"

section \<open>Extended internal rate of return\<close>

text \<open>
  The validation loop, at index \<open>i\<close>, with the loop's three variables. The first
  test is the presence check \<open>!cf || typeof cf !== 'object' || !cf.date || !cf.amount\<close>.
\<close>

fun scan_cashflows ::
  "nat \<Rightarrow> jsval list \<Rightarrow> cashflow list \<Rightarrow> bool \<Rightarrow> bool \<Rightarrow> error + (cashflow list \<times> bool \<times> bool)"
where
  "scan_cashflows i [] validCashflows hasPositive hasNegative =
     Inr (validCashflows, hasPositive, hasNegative)"
| "scan_cashflows i (cf # rest) validCashflows hasPositive hasNegative =
     (if \<not> truthy cf \<or> typeof cf \<noteq> ''object'' \<or> \<not> truthy (get_prop cf ''date'')
         \<or> \<not> truthy (get_prop cf ''amount'')
      then Inl (MissingProperties i)
      else
        (case get_prop cf ''date'' of
           JDate (Some ms) \<Rightarrow>
             (case get_prop cf ''amount'' of
                JNumber a \<Rightarrow>
                  (if js_isNaN a then Inl (CashflowBadAmount i)
                   else scan_cashflows (Suc i) rest
                          (validCashflows @ [\<lparr>date = ms, amount = a\<rparr>])
                          (if js_gt a (Fin 0) then True else hasPositive)
                          (if js_lt a (Fin 0) then True else hasNegative))
              | _ \<Rightarrow> Inl (CashflowBadAmount i))
         | _ \<Rightarrow> Inl (CashflowBadDate i)))"

text \<open>Lines 62 to 88: the length check, the loop, and the mixed-sign check.\<close>

definition validate_cashflows :: "jsval \<Rightarrow> error + cashflow list" where
  "validate_cashflows cashflows =
     (case cashflows of
        JArray cfs \<Rightarrow>
          (if length cfs < 2 then Inl TooFewCashflows
           else and_then (scan_cashflows 0 cfs [] False False)
                  (\<lambda>(validCashflows, hasPositive, hasNegative).
                     if \<not> hasPositive \<or> \<not> hasNegative then Inl NotMixedSign
                     else Inr validCashflows))
      | _ \<Rightarrow> Inl TooFewCashflows)"

text \<open>The constants of the search; \<open>-0.999\<close>, \<open>1e-6\<close> and \<open>1e-4\<close> are the doubles these
  literals denote.\<close>

definition lowBound :: "arith \<Rightarrow> jsnum" where
  "lowBound ar = Fin (fl_lit ar (- 0.999))"

definition highBound :: jsnum where
  "highBound = Fin 100000"

definition tolerance :: "arith \<Rightarrow> jsnum" where
  "tolerance ar = Fin (fl_lit ar (1 / 10 ^ 6))"

definition finalTolerance :: "arith \<Rightarrow> jsnum" where
  "finalTolerance ar = Fin (fl_lit ar (1 / 10 ^ 4))"

definition maxIterations :: nat where
  "maxIterations = 100"

definition midpoint :: "arith \<Rightarrow> jsnum \<Rightarrow> jsnum \<Rightarrow> jsnum" where
  "midpoint ar low high = js_div ar (js_add ar low high) (Fin 2)"

text \<open>
  The bisection loop from iteration \<open>iter\<close> on, and the final check after it. \<open>evals\<close>
  records, in order, every rate at which the code has called \<open>npv\<close>; the result carries
  the record along, so that what was evaluated before a return or a throw can be stated.
\<close>

function bisect ::
  "arith \<Rightarrow> cashflow list \<Rightarrow> int \<Rightarrow> nat \<Rightarrow> jsnum \<Rightarrow> jsnum \<Rightarrow> jsnum list
     \<Rightarrow> (error + jsnum) \<times> jsnum list"
where
  "bisect ar validCashflows refDate iter low high evals =
     (if iter < maxIterations then
        (let mid = midpoint ar low high;
             midNpv = npv ar mid validCashflows refDate
         in if js_lt (js_abs midNpv) (tolerance ar) then (Inr mid, evals @ [mid])
            else if js_gt midNpv (Fin 0)
              then bisect ar validCashflows refDate (iter + 1) mid high (evals @ [mid])
              else bisect ar validCashflows refDate (iter + 1) low mid (evals @ [mid]))
      else
        (let finalR = midpoint ar low high
         in if js_gt (js_abs (npv ar finalR validCashflows refDate)) (finalTolerance ar)
            then (Inl DoesNotConverge, evals @ [finalR])
            else (Inr finalR, evals @ [finalR])))"
  by pat_completeness auto
termination
  by (relation "measure (\<lambda>(ar, cfs, refDate, iter, low, high, evals). maxIterations - iter)") auto

declare bisect.simps [simp del]

text \<open>Lines 90 to 131: the stable sort by date, the reference date, the check of the
  bracket \<open>[-0.999, 100000.0]\<close> and the bisection. The comparator \<open>a.date - b.date\<close>
  orders by time value.\<close>

definition xirr_search :: "arith \<Rightarrow> cashflow list \<Rightarrow> (error + jsnum) \<times> jsnum list" where
  "xirr_search ar validCashflows =
     (let sorted = sort_key date validCashflows
      in case sorted of
           [] \<Rightarrow> (Inl TypeError, [])
         | first # _ \<Rightarrow>
             (let refDate = date first;
                  low = lowBound ar;
                  high = highBound;
                  npvLow = npv ar low sorted refDate;
                  npvHigh = npv ar high sorted refDate
              in if js_gt (js_mul ar npvLow npvHigh) (Fin 0)
                 then (Inl NoSolutionInRange, [low, high])
                 else bisect ar sorted refDate 0 low high [low, high]))"

definition calculateXIRR :: "arith \<Rightarrow> jsval \<Rightarrow> error + jsnum" where
  "calculateXIRR ar cashflows =
     and_then (validate_cashflows cashflows)
       (\<lambda>validCashflows. fst (xirr_search ar validCashflows))"

section \<open>Sharpe ratio\<close>

fun check_returns :: "nat \<Rightarrow> jsval list \<Rightarrow> error + jsnum list" where
  "check_returns i [] = Inr []"
| "check_returns i (v # rest) =
     (case v of
        JNumber x \<Rightarrow>
          (if js_isNaN x then Inl (BadReturn i)
           else and_then (check_returns (Suc i) rest) (\<lambda>xs. Inr (x # xs)))
      | _ \<Rightarrow> Inl (BadReturn i))"

definition calculateSharpeRatio :: "arith \<Rightarrow> jsval \<Rightarrow> jsval \<Rightarrow> error + jsnum" where
  "calculateSharpeRatio ar returns riskFreeRate =
     (case returns of
        JArray rs \<Rightarrow>
          (if length rs < 2 then Inl TooFewReturns
           else and_then (check_returns 0 rs) (\<lambda>xs.
             (case riskFreeRate of
                JNumber rf \<Rightarrow>
                  (if js_isNaN rf then Inl BadRiskFreeRate
                   else
                     (let avgReturn = mean ar xs;
                          volatility = stdDev ar xs
                      in if js_lt volatility (Fin (fl_lit ar (1 / 10 ^ 10)))
                         then Inr (if js_gt avgReturn rf then PInf
                                   else if js_lt avgReturn rf then NInf else Fin 0)
                         else Inr (js_div ar (js_sub ar avgReturn rf) volatility)))
              | _ \<Rightarrow> Inl BadRiskFreeRate)))
      | _ \<Rightarrow> Inl TooFewReturns)"

section \<open>Maximum drawdown\<close>

text \<open>The validation loop of \<open>calculateMaxDrawdown\<close>, from index \<open>i\<close> on: the first
  entry that is not a number, is \<open>NaN\<close> or is negative throws; otherwise the entries
  are the numbers the scan reads.\<close>

fun check_values :: "nat \<Rightarrow> jsval list \<Rightarrow> error + jsnum list" where
  "check_values i [] = Inr []"
| "check_values i (v # rest) =
     (case v of
        JNumber x \<Rightarrow>
          (if js_isNaN x \<or> js_lt x (Fin 0) then Inl (BadValue i)
           else and_then (check_values (Suc i) rest) (\<lambda>xs. Inr (x # xs)))
      | _ \<Rightarrow> Inl (BadValue i))"

text \<open>The scan: \<open>maxSoFar\<close> is the running peak, \<open>maxDrawdown\<close> the worst drawdown.\<close>

fun drawdown_scan :: "arith \<Rightarrow> jsnum list \<Rightarrow> jsnum \<Rightarrow> jsnum \<Rightarrow> jsnum" where
  "drawdown_scan ar [] maxSoFar maxDrawdown = maxDrawdown"
| "drawdown_scan ar (v # rest) maxSoFar maxDrawdown =
     (if js_gt v maxSoFar then drawdown_scan ar rest v maxDrawdown
      else
        (let drawdown = js_div ar (js_sub ar v maxSoFar) maxSoFar
         in if js_lt drawdown maxDrawdown then drawdown_scan ar rest maxSoFar drawdown
            else drawdown_scan ar rest maxSoFar maxDrawdown))"

definition calculateMaxDrawdown :: "arith \<Rightarrow> jsval \<Rightarrow> error + jsnum" where
  "calculateMaxDrawdown ar values =
     (case values of
        JArray vs \<Rightarrow>
          (if length vs < 2 then Inl TooFewValues
           else (case check_values 0 vs of
                   Inl e \<Rightarrow> Inl e
                 | Inr [] \<Rightarrow> Inl TypeError
                 | Inr (first # rest) \<Rightarrow> Inr (drawdown_scan ar rest first (Fin 0))))
      | _ \<Rightarrow> Inl TooFewValues)"

section \<open>Notions used in the statements\<close>

text \<open>A value that passes the check of \<open>calculateMaxDrawdown\<close>: a number that is not
  \<open>NaN\<close> and not negative (\<open>Infinity\<close> passes).\<close>

definition valid_value :: "jsnum \<Rightarrow> bool" where
  "valid_value x = (x \<noteq> NaN \<and> js_le (Fin 0) x)"

text \<open>A finite number between \<open>-1\<close> and \<open>0\<close>, both included.\<close>

definition unit_loss :: "jsnum \<Rightarrow> bool" where
  "unit_loss d = (\<exists>r. d = Fin r \<and> - 1 \<le> r \<and> r \<le> 0)"

text \<open>The errors that the argument checks of \<open>calculateXIRR\<close> throw (lines 62 to 80):
  the array and length check and the three per-entry checks.\<close>

fun argument_error :: "error \<Rightarrow> bool" where
  "argument_error TooFewCashflows = True"
| "argument_error (MissingProperties i) = True"
| "argument_error (CashflowBadDate i) = True"
| "argument_error (CashflowBadAmount i) = True"
| "argument_error _ = False"

text \<open>The optional \<open>expenseRatio\<close> argument: absent (\<open>undefined\<close>) or a number.\<close>

definition optional_number :: "jsnum option \<Rightarrow> jsval" where
  "optional_number r = (case r of None \<Rightarrow> JUndefined | Some x \<Rightarrow> JNumber x)"

text \<open>
  The brackets of the bisection, following step 6 of the specification's procedure:
  the search starts from \<open>[-0.999, 100000.0]\<close>; an iteration that does not return computes
  the midpoint \<open>(low + high) / 2\<close> and, if the net present value there is \<open>> 0\<close>, sets
  \<open>low\<close> to it, else \<open>high\<close>. \<open>bracket_at k\<close> is the bracket after \<open>k\<close> such
  iterations and \<open>mid_at k\<close> its midpoint, the rate that iteration \<open>k\<close> (counted from 0)
  evaluates; \<open>mid_at 100\<close> is the final midpoint.
\<close>

primrec bracket_at :: "arith \<Rightarrow> cashflow list \<Rightarrow> int \<Rightarrow> nat \<Rightarrow> jsnum \<times> jsnum" where
  "bracket_at ar cfs refDate 0 = (Fin (fl_lit ar (- 0.999)), Fin 100000)"
| "bracket_at ar cfs refDate (Suc k) =
     (let low = fst (bracket_at ar cfs refDate k);
          high = snd (bracket_at ar cfs refDate k);
          mid = js_div ar (js_add ar low high) (Fin 2)
      in if js_gt (npv ar mid cfs refDate) (Fin 0) then (mid, high) else (low, mid))"

definition mid_at :: "arith \<Rightarrow> cashflow list \<Rightarrow> int \<Rightarrow> nat \<Rightarrow> jsnum" where
  "mid_at ar cfs refDate k =
     js_div ar (js_add ar (fst (bracket_at ar cfs refDate k)) (snd (bracket_at ar cfs refDate k)))
       (Fin 2)"

text \<open>The same steps as functions of the bracket, for the proofs about the loop.\<close>

definition converged :: "arith \<Rightarrow> cashflow list \<Rightarrow> int \<Rightarrow> jsnum \<times> jsnum \<Rightarrow> bool" where
  "converged ar cfs refDate b =
     js_lt (js_abs (npv ar (midpoint ar (fst b) (snd b)) cfs refDate)) (tolerance ar)"

definition narrow :: "arith \<Rightarrow> cashflow list \<Rightarrow> int \<Rightarrow> jsnum \<times> jsnum \<Rightarrow> jsnum \<times> jsnum" where
  "narrow ar cfs refDate b =
     (let mid = midpoint ar (fst b) (snd b)
      in if js_gt (npv ar mid cfs refDate) (Fin 0) then (mid, snd b) else (fst b, mid))"

definition final_check :: "arith \<Rightarrow> cashflow list \<Rightarrow> int \<Rightarrow> jsnum \<times> jsnum \<Rightarrow> error + jsnum" where
  "final_check ar cfs refDate b =
     (let finalR = midpoint ar (fst b) (snd b)
      in if js_gt (js_abs (npv ar finalR cfs refDate)) (finalTolerance ar)
         then Inl DoesNotConverge else Inr finalR)"

section \<open>The exact arithmetic\<close>

lemma exact_ops [simp]:
  "fl_add exact x y = Fin (x + y)"
  "fl_mul exact x y = Fin (x * y)"
  "fl_div exact x y = Fin (x / y)"
  "fl_pow exact x y = Fin (if 0 < x then x powr y else x powi \<lfloor>y\<rfloor>)"
  "fl_sqrt exact x = Fin (sqrt x)"
  "fl_lit exact x = x"
  by (simp_all add: exact_def)

section \<open>Short inputs\<close>

text \<open>
  Claim C8. \<open>calculateXIRR\<close>, \<open>calculateSharpeRatio\<close> and \<open>calculateMaxDrawdown\<close>
  each fail with their "at least 2" error on every array of length 0 or 1, whatever the
  entries (and, for the Sharpe ratio, whatever the risk-free rate) and in every
  arithmetic: the length check is the first thing each of them does.
\<close>

theorem short_input_rejected:
  assumes "length xs < 2"
  shows "calculateXIRR ar (JArray xs) = Inl TooFewCashflows \<and>
         calculateSharpeRatio ar (JArray xs) riskFreeRate = Inl TooFewReturns \<and>
         calculateMaxDrawdown ar (JArray xs) = Inl TooFewValues"
  using assms
  by (simp add: calculateXIRR_def validate_cashflows_def calculateSharpeRatio_def
      calculateMaxDrawdown_def)

theorem short_input_rejected_witness:
  "length [JNumber (Fin 1000)] < 2 \<and>
   calculateXIRR exact (JArray [JNumber (Fin 1000)]) = Inl TooFewCashflows \<and>
   calculateSharpeRatio exact (JArray [JNumber (Fin 1000)]) (JNumber (Fin 0)) = Inl TooFewReturns \<and>
   calculateMaxDrawdown exact (JArray [JNumber (Fin 1000)]) = Inl TooFewValues"
proof -
  have short: "length [JNumber (Fin 1000)] < 2" by simp
  from short short_input_rejected [OF short, of exact "JNumber (Fin 0)"] show ?thesis by simp
qed

section \<open>The numeric guards and NaN\<close>

text \<open>
  Claim C4 says that every numeric guard rejects \<open>NaN\<close>. The guards test
  \<open>typeof value !== 'number'\<close> and then a comparison; \<open>typeof NaN\<close> is \<open>'number'\<close> and
  every comparison with \<open>NaN\<close> is false, so each of the three guards returns normally on
  \<open>NaN\<close>, and \<open>calculateCAGR\<close> with a \<open>NaN\<close> initial value, final value or expense
  ratio returns \<open>NaN\<close> (here over a period of one year, where \<open>1 / years\<close> is \<open>1\<close>;
  the three calls are computed in the exact arithmetic, and every operation on \<open>NaN\<close>
  is \<open>NaN\<close> in any). The other three metrics test \<open>isNaN\<close> explicitly.
\<close>

theorem guards_accept_NaN:
  "validatePositiveNumber (JNumber NaN) ''Initial value'' = Inr NaN \<and>
   validateNonNegativeNumber (JNumber NaN) ''Final value'' = Inr NaN \<and>
   validateExpenseRatio (JNumber NaN) = Inr NaN \<and>
   calculateCAGR exact (JNumber NaN) (JNumber (Fin 200)) (JDate (Some 0))
     (JDate (Some 31557600000)) JUndefined = Inr NaN \<and>
   calculateCAGR exact (JNumber (Fin 100)) (JNumber NaN) (JDate (Some 0))
     (JDate (Some 31557600000)) JUndefined = Inr NaN \<and>
   calculateCAGR exact (JNumber (Fin 100)) (JNumber (Fin 200)) (JDate (Some 0))
     (JDate (Some 31557600000)) (JNumber NaN) = Inr NaN"
  by (simp add: validatePositiveNumber_def validateNonNegativeNumber_def
      validateExpenseRatio_def calculateCAGR_def validateDate_def calculateYears_def
      msPerYear_def js_ge_def js_sub_def)

section \<open>Maximum drawdown: range and absence of NaN\<close>

lemma valid_value_cases: "valid_value x = (x = PInf \<or> (\<exists>r. x = Fin r \<and> 0 \<le> r))"
  by (cases x) (auto simp: valid_value_def)

lemma check_values_accepts:
  "list_all valid_value xs \<Longrightarrow> check_values i (map JNumber xs) = Inr xs"
proof (induction xs arbitrary: i)
  case Nil
  then show ?case by simp
next
  case (Cons x xs)
  then have "valid_value x" by simp
  then have "\<not> js_isNaN x" "\<not> js_lt x (Fin 0)"
    by (auto simp: valid_value_cases)
  with Cons show ?case by simp
qed

lemma check_values_sound:
  "check_values i vs = Inr xs \<Longrightarrow> vs = map JNumber xs \<and> list_all valid_value xs"
proof (induction vs arbitrary: i xs)
  case Nil
  then show ?case by simp
next
  case (Cons v vs)
  then show ?case
    by (cases v; cases "check_values (Suc i) vs")
       (auto split: if_splits simp: valid_value_cases elim: js_lt.elims js_isNaN.elims)
qed

lemma drawdown_finite:
  assumes "0 \<le> (r::real)" "r \<le> p" "p \<noteq> 0"
  shows "- 1 \<le> (r - p) / p \<and> (r - p) / p \<le> 0"
proof -
  from assms have "0 < p" by linarith
  then show ?thesis using assms by (simp add: field_simps)
qed

text \<open>One step below the peak: the drawdown is \<open>NaN\<close> (zero or infinite peak) or lies
  in \<open>[-1, 0]\<close>.\<close>

lemma drawdown_step:
  assumes "valid_value v" "valid_value m" "\<not> js_gt v m"
  shows "js_div exact (js_sub exact v m) m = NaN \<or> unit_loss (js_div exact (js_sub exact v m) m)"
proof (cases m)
  case (Fin p)
  with assms obtain r where v: "v = Fin r" "0 \<le> r" "r \<le> p" and p: "0 \<le> p"
    by (auto simp: valid_value_cases js_gt_def)
  show ?thesis
  proof (cases "p = 0")
    case True
    with v p Fin show ?thesis by (simp add: js_sub_def)
  next
    case False
    with v Fin drawdown_finite [of r p] show ?thesis
      by (simp add: js_sub_def unit_loss_def)
  qed
next
  case PInf
  with assms show ?thesis by (auto simp: valid_value_cases js_sub_def)
qed (use assms in \<open>auto simp: valid_value_cases\<close>)

lemma drawdown_scan_range:
  "list_all valid_value rest \<Longrightarrow> valid_value m \<Longrightarrow> unit_loss d \<Longrightarrow>
   unit_loss (drawdown_scan exact rest m d)"
proof (induction rest arbitrary: m d)
  case Nil
  then show ?case by simp
next
  case (Cons v rest)
  show ?case
  proof (cases "js_gt v m")
    case True
    with Cons show ?thesis by simp
  next
    case False
    with Cons.prems have "js_div exact (js_sub exact v m) m = NaN \<or> unit_loss (js_div exact (js_sub exact v m) m)"
      by (intro drawdown_step) simp_all
    with False Cons show ?thesis
      by (auto simp: Let_def)
  qed
qed

lemma calculateMaxDrawdown_accepts:
  assumes "2 \<le> length xs" "list_all valid_value xs"
  shows "\<exists>first rest. xs = first # rest \<and>
           calculateMaxDrawdown exact (JArray (map JNumber xs)) = Inr (drawdown_scan exact rest first (Fin 0))"
proof -
  from assms(1) obtain first rest where xs: "xs = first # rest" by (cases xs) auto
  from assms(1) have "\<not> length (map JNumber xs) < 2" by simp
  with check_values_accepts [OF assms(2), of 0]
  have "calculateMaxDrawdown exact (JArray (map JNumber xs)) = Inr (drawdown_scan exact rest first (Fin 0))"
    unfolding calculateMaxDrawdown_def xs by simp
  with xs show ?thesis by blast
qed

lemma calculateMaxDrawdown_unit_loss:
  assumes "calculateMaxDrawdown exact values = Inr d"
  shows "unit_loss d"
proof -
  from assms obtain vs where vs: "values = JArray vs" "\<not> length vs < 2"
    by (cases "values") (auto simp: calculateMaxDrawdown_def split: if_splits)
  with assms obtain first rest where ok: "check_values 0 vs = Inr (first # rest)"
    and d: "d = drawdown_scan exact rest first (Fin 0)"
    by (cases "check_values 0 vs")
       (auto simp: calculateMaxDrawdown_def split: list.splits)
  from check_values_sound [OF ok] have "list_all valid_value (first # rest)" by simp
  then show ?thesis
    unfolding d by (intro drawdown_scan_range) (simp_all add: unit_loss_def)
qed

text \<open>A series in which no value is below an earlier one never lowers the result.\<close>

lemma drawdown_scan_no_decline:
  "sorted_wrt js_le (m # rest) \<Longrightarrow> list_all valid_value (m # rest) \<Longrightarrow>
   drawdown_scan exact rest m (Fin 0) = Fin 0"
proof (induction rest arbitrary: m)
  case Nil
  then show ?case by simp
next
  case (Cons v rest)
  show ?case
  proof (cases "js_gt v m")
    case True
    with Cons.prems Cons.IH [of v] show ?thesis by simp
  next
    case False
    from Cons.prems have le: "js_le m v" and vm: "valid_value v" "valid_value m" by simp_all
    with False have "\<not> js_lt (js_div exact (js_sub exact v m) m) (Fin 0)"
      by (auto simp: valid_value_cases js_gt_def js_sub_def split: if_splits)
    moreover from Cons.prems have "drawdown_scan exact rest m (Fin 0) = Fin 0"
      by (intro Cons.IH) simp_all
    ultimately show ?thesis using False by (simp add: Let_def)
  qed
qed

text \<open>
  Claim C7, as amended. For every value series of at least two numbers, none of them
  \<open>NaN\<close> or negative, \<open>calculateMaxDrawdown\<close> returns a finite value that is at least
  \<open>-1\<close> and at most \<open>0\<close>; and it returns exactly \<open>0\<close> when no value is below an
  earlier one (\<open>sorted_wrt js_le\<close>: every value is at least every value before it, hence
  at least the running peak), in particular on a strictly increasing series. The
  drawdowns are computed in the exact arithmetic.
\<close>

theorem calculateMaxDrawdown_range:
  assumes "2 \<le> length xs" and "list_all valid_value xs"
  shows "(\<exists>r. calculateMaxDrawdown exact (JArray (map JNumber xs)) = Inr (Fin r) \<and> - 1 \<le> r \<and> r \<le> 0) \<and>
         (sorted_wrt js_le xs \<longrightarrow> calculateMaxDrawdown exact (JArray (map JNumber xs)) = Inr (Fin 0)) \<and>
         (sorted_wrt js_lt xs \<longrightarrow> calculateMaxDrawdown exact (JArray (map JNumber xs)) = Inr (Fin 0))"
proof -
  from calculateMaxDrawdown_accepts [OF assms] obtain first rest
    where xs: "xs = first # rest"
      and run: "calculateMaxDrawdown exact (JArray (map JNumber xs)) = Inr (drawdown_scan exact rest first (Fin 0))"
    by blast
  from calculateMaxDrawdown_unit_loss [OF run]
  have range: "\<exists>r. calculateMaxDrawdown exact (JArray (map JNumber xs)) = Inr (Fin r) \<and> - 1 \<le> r \<and> r \<le> 0"
    unfolding run unit_loss_def by simp
  have flat: "calculateMaxDrawdown exact (JArray (map JNumber xs)) = Inr (Fin 0)" if "sorted_wrt js_le xs"
  proof -
    from that assms(2) have "drawdown_scan exact rest first (Fin 0) = Fin 0"
      unfolding xs by (rule drawdown_scan_no_decline)
    with run show ?thesis by simp
  qed
  have "js_le a b" if "js_lt a b" for a b
    using that by (cases a; cases b) simp_all
  then have "sorted_wrt js_le xs" if "sorted_wrt js_lt xs"
    using that sorted_wrt_mono_rel [of xs js_lt js_le] by blast
  with range flat show ?thesis by blast
qed

theorem calculateMaxDrawdown_range_witness:
  "2 \<le> length [Fin 1000, Fin 1100, Fin 1200, Fin 1300] \<and>
   list_all valid_value [Fin 1000, Fin 1100, Fin 1200, Fin 1300] \<and>
   sorted_wrt js_lt [Fin 1000, Fin 1100, Fin 1200, Fin 1300] \<and>
   calculateMaxDrawdown exact (JArray [JNumber (Fin 1000), JNumber (Fin 1100), JNumber (Fin 1200),
     JNumber (Fin 1300)]) = Inr (Fin 0)"
proof -
  have len: "2 \<le> length [Fin 1000, Fin 1100, Fin 1200, Fin 1300]" by simp
  have ok: "list_all valid_value [Fin 1000, Fin 1100, Fin 1200, Fin 1300]"
    by (simp add: valid_value_def)
  have up: "sorted_wrt js_lt [Fin 1000, Fin 1100, Fin 1200, Fin 1300]" by simp
  from calculateMaxDrawdown_range [OF len ok] up len ok show ?thesis by simp
qed

text \<open>
  Claim C7 as the specification states it gives the open bound \<open>-1 < result\<close>. A value
  \<open>0\<close> after a positive peak is a valid input and yields exactly \<open>-1\<close>:
  \<open>calculateMaxDrawdown([100, 0])\<close> is \<open>(0 - 100) / 100\<close>.
\<close>

theorem calculateMaxDrawdown_total_loss:
  "2 \<le> length [Fin 100, Fin 0] \<and> list_all valid_value [Fin 100, Fin 0] \<and>
   calculateMaxDrawdown exact (JArray (map JNumber [Fin 100, Fin 0])) = Inr (Fin (- 1)) \<and>
   \<not> (\<exists>r. calculateMaxDrawdown exact (JArray (map JNumber [Fin 100, Fin 0])) = Inr (Fin r) \<and> - 1 < r)"
  by (simp add: calculateMaxDrawdown_def valid_value_def js_gt_def js_sub_def)

text \<open>
  Claim C10. Whenever \<open>calculateMaxDrawdown\<close> accepts its input and returns, the value
  is a finite number, never \<open>NaN\<close>. At a running peak of \<open>0\<close> the next accepted value
  that is not above the peak is \<open>0\<close>; the drawdown computed is \<open>(0 - 0) / 0 = NaN\<close>,
  the comparison \<open>NaN < maxDrawdown\<close> is false, and the scan goes on with the worst
  drawdown unchanged. \<open>[0, 0]\<close> returns exactly \<open>0\<close>. The drawdowns are computed in
  the exact arithmetic.
\<close>

theorem calculateMaxDrawdown_never_NaN:
  assumes "calculateMaxDrawdown exact values = Inr d"
  shows "(\<exists>r. d = Fin r) \<and> d \<noteq> NaN \<and>
         js_div exact (js_sub exact (Fin 0) (Fin 0)) (Fin 0) = NaN \<and> \<not> js_lt NaN worst \<and>
         drawdown_scan exact (Fin 0 # rest) (Fin 0) worst = drawdown_scan exact rest (Fin 0) worst"
proof -
  from calculateMaxDrawdown_unit_loss [OF assms] have "(\<exists>r. d = Fin r) \<and> d \<noteq> NaN"
    by (auto simp: unit_loss_def)
  then show ?thesis by (simp add: js_sub_def js_gt_def)
qed

theorem calculateMaxDrawdown_never_NaN_witness:
  "calculateMaxDrawdown exact (JArray [JNumber (Fin 0), JNumber (Fin 0)]) = Inr (Fin 0) \<and>
   (\<exists>r. Fin 0 = Fin r) \<and> Fin 0 \<noteq> NaN \<and>
   drawdown_scan exact [Fin 0, Fin 5] (Fin 0) (Fin 0) = drawdown_scan exact [Fin 5] (Fin 0) (Fin 0)"
proof -
  have run: "calculateMaxDrawdown exact (JArray [JNumber (Fin 0), JNumber (Fin 0)]) = Inr (Fin 0)"
    by (simp add: calculateMaxDrawdown_def js_gt_def js_sub_def)
  from calculateMaxDrawdown_never_NaN [OF run, of "Fin 0" "[Fin 5]"] run show ?thesis
    by blast
qed

section \<open>XIRR: the validation of the cashflows\<close>

lemma and_then_Inr_iff:
  "and_then m f = Inr y \<longleftrightarrow> (\<exists>x. m = Inr x \<and> f x = Inr y)"
  by (cases m) simp_all

lemma and_then_Inl_iff:
  "and_then m f = Inl e \<longleftrightarrow> m = Inl e \<or> (\<exists>x. m = Inr x \<and> f x = Inl e)"
  by (cases m) simp_all

text \<open>An entry whose amount is \<open>0\<close> stops the loop at or before its index.\<close>

lemma scan_cashflows_zero_amount:
  assumes "cf \<in> set cfs" "get_prop cf ''amount'' = JNumber (Fin 0)"
  shows "\<exists>e. scan_cashflows i cfs valid pos neg = Inl e \<and> argument_error e"
  using assms
proof (induction cfs arbitrary: i valid pos neg)
  case Nil
  then show ?case by simp
next
  case (Cons c cfs)
  show ?case
  proof (cases "c = cf")
    case True
    with Cons.prems show ?thesis by simp
  next
    case False
    with Cons.prems have "cf \<in> set cfs" by simp
    from Cons.IH [OF this Cons.prems(2)]
    have later: "\<exists>e. scan_cashflows (Suc i) cfs v p n = Inl e \<and> argument_error e" for v p n .
    show ?thesis
    proof (cases "\<not> truthy c \<or> typeof c \<noteq> ''object'' \<or> \<not> truthy (get_prop c ''date'')
        \<or> \<not> truthy (get_prop c ''amount'')")
      case True
      then show ?thesis by auto
    next
      case False
      then show ?thesis using later
        by (auto split: jsval.splits option.splits)
    qed
  qed
qed

text \<open>The loop over a prefix that passes, followed by the rest.\<close>

lemma scan_cashflows_append:
  "scan_cashflows i (pre @ rest) valid pos neg =
     and_then (scan_cashflows i pre valid pos neg)
       (\<lambda>(v, p, n). scan_cashflows (i + length pre) rest v p n)"
proof (induction pre arbitrary: i valid pos neg)
  case Nil
  then show ?case by simp
next
  case (Cons c pre)
  show ?case
  proof (cases "\<not> truthy c \<or> typeof c \<noteq> ''object'' \<or> \<not> truthy (get_prop c ''date'')
      \<or> \<not> truthy (get_prop c ''amount'')")
    case True
    then show ?thesis by auto
  next
    case False
    then show ?thesis using Cons.IH
      by (auto split: jsval.splits option.splits)
  qed
qed

text \<open>What the loop hands on: one copy per entry, in order, no amount \<open>NaN\<close> or \<open>0\<close>,
  and the two flags telling whether a positive and a negative amount occurred.\<close>

lemma scan_cashflows_result:
  assumes "scan_cashflows i cfs valid pos neg = Inr (valid', pos', neg')"
  shows "\<exists>new. valid' = valid @ new \<and> length new = length cfs \<and>
           (\<forall>c \<in> set new. amount c \<noteq> NaN \<and> amount c \<noteq> Fin 0) \<and>
           pos' = (pos \<or> (\<exists>c \<in> set new. js_gt (amount c) (Fin 0))) \<and>
           neg' = (neg \<or> (\<exists>c \<in> set new. js_lt (amount c) (Fin 0)))"
  using assms
proof (induction cfs arbitrary: i valid pos neg)
  case Nil
  then show ?case by simp
next
  case (Cons c cfs)
  from Cons.prems obtain ms a where c: "get_prop c ''date'' = JDate (Some ms)"
      "get_prop c ''amount'' = JNumber a" "a \<noteq> NaN" "a \<noteq> Fin 0"
    and rest: "scan_cashflows (Suc i) cfs (valid @ [\<lparr>date = ms, amount = a\<rparr>])
        (if js_gt a (Fin 0) then True else pos) (if js_lt a (Fin 0) then True else neg)
        = Inr (valid', pos', neg')"
    by (auto split: if_splits jsval.splits option.splits elim: js_isNaN.elims)
  from Cons.IH [OF rest] obtain new where new: "valid' = (valid @ [\<lparr>date = ms, amount = a\<rparr>]) @ new"
      "length new = length cfs" "\<forall>c \<in> set new. amount c \<noteq> NaN \<and> amount c \<noteq> Fin 0"
      "pos' = ((if js_gt a (Fin 0) then True else pos) \<or> (\<exists>c \<in> set new. js_gt (amount c) (Fin 0)))"
      "neg' = ((if js_lt a (Fin 0) then True else neg) \<or> (\<exists>c \<in> set new. js_lt (amount c) (Fin 0)))"
    by blast
  let ?new = "\<lparr>date = ms, amount = a\<rparr> # new"
  from new c have "valid' = valid @ ?new \<and> length ?new = length (c # cfs) \<and>
           (\<forall>c \<in> set ?new. amount c \<noteq> NaN \<and> amount c \<noteq> Fin 0) \<and>
           pos' = (pos \<or> (\<exists>c \<in> set ?new. js_gt (amount c) (Fin 0))) \<and>
           neg' = (neg \<or> (\<exists>c \<in> set ?new. js_lt (amount c) (Fin 0)))"
    by auto
  then show ?case by blast
qed

text \<open>What an accepted series looks like.\<close>

lemma validate_cashflows_result:
  assumes "validate_cashflows input = Inr valid"
  shows "2 \<le> length valid \<and> (\<forall>c \<in> set valid. amount c \<noteq> NaN \<and> amount c \<noteq> Fin 0) \<and>
         (\<exists>c \<in> set valid. js_gt (amount c) (Fin 0)) \<and>
         (\<exists>c \<in> set valid. js_lt (amount c) (Fin 0))"
proof -
  from assms obtain cfs where cfs: "input = JArray cfs" "\<not> length cfs < 2"
    by (cases input) (auto simp: validate_cashflows_def split: if_splits)
  with assms obtain pos neg where scan: "scan_cashflows 0 cfs [] False False = Inr (valid, pos, neg)"
    and flags: "pos" "neg"
    by (auto simp: validate_cashflows_def and_then_Inr_iff split: if_splits)
  from scan_cashflows_result [OF scan] cfs flags show ?thesis by auto
qed

text \<open>
  Claim C9. If some entry of the array has an amount that is exactly \<open>0\<close>, then, in
  every arithmetic, \<open>calculateXIRR\<close> fails with one of the errors of its argument checks
  and validation accepts nothing: the presence check \<open>!cf.amount\<close> is true for \<open>0\<close>. When the array
  has at least two entries and the entries before the zero-amount one pass the loop, the
  error is the missing-properties error at that entry's index. No accepted series holds a
  cashflow whose amount is \<open>0\<close>.
\<close>

theorem zero_amount_rejected:
  assumes "cf \<in> set cfs" and "get_prop cf ''amount'' = JNumber (Fin 0)"
  shows "(\<exists>e. calculateXIRR ar (JArray cfs) = Inl e \<and> argument_error e) \<and>
         (\<forall>valid. validate_cashflows (JArray cfs) \<noteq> Inr valid) \<and>
         (\<forall>pre post st. cfs = pre @ cf # post \<and> 2 \<le> length cfs \<and>
              scan_cashflows 0 pre [] False False = Inr st \<longrightarrow>
              calculateXIRR ar (JArray cfs) = Inl (MissingProperties (length pre))) \<and>
         (\<forall>input valid c. validate_cashflows input = Inr valid \<and> c \<in> set valid \<longrightarrow>
              amount c \<noteq> Fin 0)"
proof -
  from scan_cashflows_zero_amount [OF assms, of 0 "[]" False False]
  obtain e where e: "scan_cashflows 0 cfs [] False False = Inl e" "argument_error e"
    by blast
  then have fails: "validate_cashflows (JArray cfs) = Inl (if length cfs < 2 then TooFewCashflows else e)"
    by (simp add: validate_cashflows_def)
  with e have first: "\<exists>e. calculateXIRR ar (JArray cfs) = Inl e \<and> argument_error e"
    by (simp add: calculateXIRR_def)
  from fails have second: "\<forall>valid. validate_cashflows (JArray cfs) \<noteq> Inr valid"
    by simp
  have third: "calculateXIRR ar (JArray cfs) = Inl (MissingProperties (length pre))"
    if "cfs = pre @ cf # post" "2 \<le> length cfs" "scan_cashflows 0 pre [] False False = Inr st"
    for pre post st
  proof -
    obtain v p n where st: "st = (v, p, n)" by (cases st)
    from that(3) assms(2) have "scan_cashflows 0 (pre @ cf # post) [] False False
        = Inl (MissingProperties (length pre))"
      unfolding scan_cashflows_append st by simp
    moreover from that(2) have "\<not> length cfs < 2" by simp
    ultimately show ?thesis
      unfolding calculateXIRR_def validate_cashflows_def that(1) [symmetric] by (simp add: that(1))
  qed
  have fourth: "amount c \<noteq> Fin 0" if "validate_cashflows input = Inr valid" "c \<in> set valid"
    for input valid c
    using validate_cashflows_result [OF that(1)] that(2) by blast
  from first second third fourth show ?thesis by blast
qed

theorem zero_amount_rejected_witness:
  "JObject [(''date'', JDate (Some 31557600000)), (''amount'', JNumber (Fin 0))]
     \<in> set [JObject [(''date'', JDate (Some 0)), (''amount'', JNumber (Fin (- 1000)))],
            JObject [(''date'', JDate (Some 31557600000)), (''amount'', JNumber (Fin 0))],
            JObject [(''date'', JDate (Some 63115200000)), (''amount'', JNumber (Fin 1200))]] \<and>
   get_prop (JObject [(''date'', JDate (Some 31557600000)), (''amount'', JNumber (Fin 0))]) ''amount''
     = JNumber (Fin 0) \<and>
   calculateXIRR exact (JArray
     [JObject [(''date'', JDate (Some 0)), (''amount'', JNumber (Fin (- 1000)))],
      JObject [(''date'', JDate (Some 31557600000)), (''amount'', JNumber (Fin 0))],
      JObject [(''date'', JDate (Some 63115200000)), (''amount'', JNumber (Fin 1200))]])
     = Inl (MissingProperties 1)"
proof -
  let ?first = "JObject [(''date'', JDate (Some 0)), (''amount'', JNumber (Fin (- 1000)))]"
  let ?zero = "JObject [(''date'', JDate (Some 31557600000)), (''amount'', JNumber (Fin 0))]"
  let ?last = "JObject [(''date'', JDate (Some 63115200000)), (''amount'', JNumber (Fin 1200))]"
  have mem: "?zero \<in> set [?first, ?zero, ?last]" by simp
  have zero: "get_prop ?zero ''amount'' = JNumber (Fin 0)" by simp
  have pre: "scan_cashflows 0 [?first] [] False False
      = Inr ([\<lparr>date = 0, amount = Fin (- 1000)\<rparr>], False, True)"
    by (simp add: js_gt_def)
  from zero_amount_rejected [OF mem zero, of exact]
  have "[?first, ?zero, ?last] = [?first] @ ?zero # [?last] \<and> 2 \<le> length [?first, ?zero, ?last] \<and>
      scan_cashflows 0 [?first] [] False False = Inr ([\<lparr>date = 0, amount = Fin (- 1000)\<rparr>], False, True)
      \<longrightarrow> calculateXIRR exact (JArray [?first, ?zero, ?last]) = Inl (MissingProperties (length [?first]))"
    by blast
  with pre have "calculateXIRR exact (JArray [?first, ?zero, ?last]) = Inl (MissingProperties 1)"
    by simp
  with mem zero show ?thesis by blast
qed

section \<open>CAGR\<close>

lemma js_gt_not_le: "js_gt a b \<Longrightarrow> \<not> js_le a b"
  by (cases a; cases b) (simp_all add: js_gt_def)

lemma js_ge_not_lt: "js_ge a b \<Longrightarrow> \<not> js_lt a b"
  by (cases a; cases b) (simp_all add: js_ge_def)

lemma js_lt_not_ge: "js_lt a b \<Longrightarrow> \<not> js_ge a b"
  by (cases a; cases b) (simp_all add: js_ge_def)

text \<open>
  Claim C5. Let the initial value be a number \<open>> 0\<close>, the final value a number \<open>\<ge> 0\<close>
  (an infinity passes either guard), the dates valid with the start strictly before the
  end, and the expense ratio absent or a number in \<open>[0, 1)\<close>. Then, in every arithmetic,
  \<open>calculateCAGR\<close> throws nothing; it returns exactly \<open>-1\<close> when the final value is
  \<open>0\<close>; otherwise it returns \<open>Math.pow(finalValue / initialValue, 1 / years) - 1\<close>, where
  \<open>years\<close> is the difference of the time values divided by the milliseconds of 365.25
  days, and with an expense ratio \<open>e\<close> it returns \<open>(1 + cagr) * (1 - e) - 1\<close>; every
  operation is the arithmetic's (in binary64 the result is \<open>Infinity\<close> when the power
  overflows).
\<close>

theorem calculateCAGR_value:
  assumes "js_gt iv (Fin 0)" and "js_ge fv (Fin 0)" and "s < e"
    and "case ratio of None \<Rightarrow> True | Some x \<Rightarrow> js_ge x (Fin 0) \<and> js_lt x (Fin 1)"
  shows "calculateCAGR ar (JNumber iv) (JNumber fv) (JDate (Some s)) (JDate (Some e))
           (optional_number ratio) =
         Inr (if fv = Fin 0 then Fin (- 1)
              else (let years = js_div ar (js_sub ar (Fin (of_int e)) (Fin (of_int s)))
                                  (Fin (1000 * 60 * 60 * 24 * 365.25));
                        cagr = js_sub ar (Math_pow ar (js_div ar fv iv) (js_div ar (Fin 1) years)) (Fin 1)
                    in case ratio of
                         None \<Rightarrow> cagr
                       | Some x \<Rightarrow>
                           js_sub ar (js_mul ar (js_add ar (Fin 1) cagr) (js_sub ar (Fin 1) x)) (Fin 1)))"
proof -
  have guards: "validatePositiveNumber (JNumber iv) ''Initial value'' = Inr iv"
    "validateNonNegativeNumber (JNumber fv) ''Final value'' = Inr fv"
    "validateDate (JDate (Some s)) ''Start date'' = Inr s"
    "validateDate (JDate (Some e)) ''End date'' = Inr e"
    using js_gt_not_le [OF assms(1)] js_ge_not_lt [OF assms(2)]
    by (simp_all add: validatePositiveNumber_def validateNonNegativeNumber_def validateDate_def)
  have ratio_ok: "(if optional_number ratio \<noteq> JUndefined
       then and_then (validateExpenseRatio (optional_number ratio)) (\<lambda>e. Inr (Some e))
       else Inr None) = Inr ratio"
  proof (cases ratio)
    case None
    then show ?thesis by (simp add: optional_number_def)
  next
    case (Some x)
    with assms(4) have "js_ge x (Fin 0)" "js_lt x (Fin 1)" by simp_all
    with js_ge_not_lt [of x "Fin 0"] js_lt_not_ge [of x "Fin 1"] Some show ?thesis
      by (simp add: optional_number_def validateExpenseRatio_def)
  qed
  from assms(3) show ?thesis
    unfolding calculateCAGR_def guards ratio_ok and_then.simps calculateYears_def msPerYear_def
    by (simp add: Let_def split: option.split)
qed

theorem calculateCAGR_value_witness:
  "js_gt (Fin 100) (Fin 0) \<and> js_ge (Fin 200) (Fin 0) \<and> (0::int) < 31557600000 \<and>
   calculateCAGR exact (JNumber (Fin 100)) (JNumber (Fin 200)) (JDate (Some 0))
     (JDate (Some 31557600000)) (JNumber (Fin (1 / 100))) = Inr (Fin (98 / 100)) \<and>
   calculateCAGR exact (JNumber (Fin 100)) (JNumber (Fin 0)) (JDate (Some 0))
     (JDate (Some 31557600000)) JUndefined = Inr (Fin (- 1))"
proof -
  have iv: "js_gt (Fin 100) (Fin 0)" and fv: "js_ge (Fin 200) (Fin 0)"
    and zero: "js_ge (Fin 0) (Fin 0)" and dates: "(0::int) < 31557600000"
    by (simp_all add: js_gt_def js_ge_def)
  have ratio: "case Some (Fin (1 / 100)) of None \<Rightarrow> True
      | Some x \<Rightarrow> js_ge x (Fin 0) \<and> js_lt x (Fin 1)"
    by (simp add: js_ge_def)
  have none: "case (None :: jsnum option) of None \<Rightarrow> True
      | Some x \<Rightarrow> js_ge x (Fin 0) \<and> js_lt x (Fin 1)"
    by simp
  from calculateCAGR_value [OF iv fv dates ratio, of exact]
    calculateCAGR_value [OF iv zero dates none, of exact] iv fv dates
  show ?thesis by (simp add: optional_number_def js_sub_def)
qed

section \<open>Sharpe ratio\<close>

lemma check_returns_accepts:
  "NaN \<notin> set ys \<Longrightarrow> check_returns i (map JNumber ys) = Inr ys"
proof (induction ys arbitrary: i)
  case Nil
  then show ?case by simp
next
  case (Cons y ys)
  then have "\<not> js_isNaN y" by (cases y) simp_all
  with Cons show ?case by simp
qed

lemma js_trichotomy:
  "a \<noteq> NaN \<Longrightarrow> b \<noteq> NaN \<Longrightarrow> (\<not> js_gt a b \<and> \<not> js_lt a b) = (a = b)"
  by (cases a; cases b) (auto simp: js_gt_def)

lemma Math_pow_exact_square: "Math_pow exact (Fin x) (Fin 2) = Fin (x\<^sup>2)"
proof -
  have "x powr 2 = x\<^sup>2" if "0 < x" using that by simp
  moreover have "x powi \<lfloor>2::real\<rfloor> = x\<^sup>2" by simp
  ultimately show ?thesis by simp
qed

text \<open>
  Claim C6. For every return series of at least two numbers, none of them \<open>NaN\<close>, and
  every risk-free rate that is a number other than \<open>NaN\<close>, in every arithmetic: when
  \<open>stdDev\<close> of the returns is below \<open>1e-10\<close>, \<open>calculateSharpeRatio\<close> returns \<open>Infinity\<close> if
  the mean exceeds the risk-free rate, \<open>-Infinity\<close> if it is below and \<open>0\<close> otherwise
  (for a mean that is a number: if it equals the rate); when it is not, the result is
  \<open>(mean - riskFreeRate) / stdDev\<close>. \<open>mean\<close> is the sum, accumulated from \<open>0\<close> in order,
  divided by the length \<open>n\<close>; \<open>stdDev\<close> is the square root of the sum of the squared
  deviations from the mean divided by \<open>n - 1\<close> (Bessel's correction). Mean and deviation
  are the arithmetic's values, not the real ones: in binary64 the mean of
  \<open>[0.1, 0.1, 0.1]\<close> exceeds \<open>0.1\<close>.
\<close>

theorem calculateSharpeRatio_value:
  assumes "2 \<le> length ys" and "NaN \<notin> set ys" and "rf \<noteq> NaN"
  shows "calculateSharpeRatio ar (JArray (map JNumber ys)) (JNumber rf) =
           Inr (if js_lt (stdDev ar ys) (Fin (fl_lit ar (1 / 10 ^ 10)))
                then (if js_gt (mean ar ys) rf then PInf
                      else if js_lt (mean ar ys) rf then NInf else Fin 0)
                else js_div ar (js_sub ar (mean ar ys) rf) (stdDev ar ys)) \<and>
         (if mean ar ys = NaN then True
          else (\<not> js_gt (mean ar ys) rf \<and> \<not> js_lt (mean ar ys) rf) = (mean ar ys = rf)) \<and>
         mean ar ys = js_div ar (foldl (js_add ar) (Fin 0) ys) (Fin (real (length ys))) \<and>
         stdDev ar ys =
           js_sqrt ar
             (js_div ar
                (foldl (\<lambda>sum val. js_add ar sum (Math_pow ar (js_sub ar val (mean ar ys)) (Fin 2)))
                   (Fin 0) ys)
                (Fin (real (length ys) - 1)))"
proof -
  from assms(3) have rf: "\<not> js_isNaN rf" by (cases rf) simp_all
  from assms(1) have len: "\<not> length (map JNumber ys) < 2" by simp
  have run: "calculateSharpeRatio ar (JArray (map JNumber ys)) (JNumber rf) =
           Inr (if js_lt (stdDev ar ys) (Fin (fl_lit ar (1 / 10 ^ 10)))
                then (if js_gt (mean ar ys) rf then PInf
                      else if js_lt (mean ar ys) rf then NInf else Fin 0)
                else js_div ar (js_sub ar (mean ar ys) rf) (stdDev ar ys))"
    unfolding calculateSharpeRatio_def using len rf check_returns_accepts [OF assms(2), of 0]
    by (simp add: Let_def)
  have equal: "if mean ar ys = NaN then True
      else (\<not> js_gt (mean ar ys) rf \<and> \<not> js_lt (mean ar ys) rf) = (mean ar ys = rf)"
    using js_trichotomy [OF _ assms(3), of "mean ar ys"] by simp
  from assms(1) have "ys \<noteq> []" by auto
  moreover from assms(1) have "real (length ys - 1) = real (length ys) - 1" by simp
  ultimately have moments:
    "mean ar ys = js_div ar (foldl (js_add ar) (Fin 0) ys) (Fin (real (length ys)))"
    "stdDev ar ys =
       js_sqrt ar
         (js_div ar
            (foldl (\<lambda>sum val. js_add ar sum (Math_pow ar (js_sub ar val (mean ar ys)) (Fin 2)))
               (Fin 0) ys)
            (Fin (real (length ys) - 1)))"
    using assms(1) by (simp_all add: mean_def stdDev_def Let_def del: Math_pow.simps)
  from run equal moments show ?thesis by blast
qed

theorem calculateSharpeRatio_value_witness:
  "2 \<le> length [Fin 0, Fin 1, Fin 2] \<and> NaN \<notin> set [Fin 0, Fin 1, Fin 2] \<and>
   Fin (1 / 2) \<noteq> NaN \<and>
   mean exact [Fin 0, Fin 1, Fin 2] = Fin 1 \<and> stdDev exact [Fin 0, Fin 1, Fin 2] = Fin 1 \<and>
   calculateSharpeRatio exact (JArray [JNumber (Fin 0), JNumber (Fin 1), JNumber (Fin 2)])
     (JNumber (Fin (1 / 2))) = Inr (Fin (1 / 2)) \<and>
   calculateSharpeRatio exact (JArray [JNumber (Fin 1), JNumber (Fin 1), JNumber (Fin 1)])
     (JNumber (Fin (1 / 2))) = Inr PInf"
proof -
  have len: "2 \<le> length [Fin 0, Fin 1, Fin 2]" "2 \<le> length [Fin 1, Fin 1, Fin 1]"
    by simp_all
  have ok: "NaN \<notin> set [Fin 0, Fin 1, Fin 2]" "NaN \<notin> set [Fin 1, Fin 1, Fin 1]"
    by simp_all
  have rf: "Fin (1 / 2) \<noteq> NaN" by simp
  note spread = calculateSharpeRatio_value [OF len(1) ok(1) rf, of exact]
  from spread have mean_spread: "mean exact [Fin 0, Fin 1, Fin 2] = Fin 1"
    by simp
  from spread have "stdDev exact [Fin 0, Fin 1, Fin 2] =
      js_sqrt exact (js_div exact
        (foldl (\<lambda>sum val. js_add exact sum
                 (Math_pow exact (js_sub exact val (mean exact [Fin 0, Fin 1, Fin 2])) (Fin 2)))
           (Fin 0) [Fin 0, Fin 1, Fin 2])
        (Fin (real (length [Fin 0, Fin 1, Fin 2]) - 1)))"
    by blast
  then have dev_spread: "stdDev exact [Fin 0, Fin 1, Fin 2] = Fin 1"
    unfolding mean_spread by (simp add: js_sub_def Math_pow_exact_square del: Math_pow.simps)
  from spread have "calculateSharpeRatio exact (JArray (map JNumber [Fin 0, Fin 1, Fin 2]))
      (JNumber (Fin (1 / 2))) =
      Inr (if js_lt (stdDev exact [Fin 0, Fin 1, Fin 2]) (Fin (fl_lit exact (1 / 10 ^ 10)))
           then (if js_gt (mean exact [Fin 0, Fin 1, Fin 2]) (Fin (1 / 2)) then PInf
                 else if js_lt (mean exact [Fin 0, Fin 1, Fin 2]) (Fin (1 / 2)) then NInf else Fin 0)
           else js_div exact (js_sub exact (mean exact [Fin 0, Fin 1, Fin 2]) (Fin (1 / 2)))
                  (stdDev exact [Fin 0, Fin 1, Fin 2]))"
    by (rule conjunct1)
  then have a: "calculateSharpeRatio exact
      (JArray [JNumber (Fin 0), JNumber (Fin 1), JNumber (Fin 2)]) (JNumber (Fin (1 / 2)))
      = Inr (Fin (1 / 2))"
    unfolding mean_spread dev_spread by (simp add: js_sub_def)
  note flat = calculateSharpeRatio_value [OF len(2) ok(2) rf, of exact]
  from flat have mean_flat: "mean exact [Fin 1, Fin 1, Fin 1] = Fin 1"
    by simp
  from flat have "stdDev exact [Fin 1, Fin 1, Fin 1] =
      js_sqrt exact (js_div exact
        (foldl (\<lambda>sum val. js_add exact sum
                 (Math_pow exact (js_sub exact val (mean exact [Fin 1, Fin 1, Fin 1])) (Fin 2)))
           (Fin 0) [Fin 1, Fin 1, Fin 1])
        (Fin (real (length [Fin 1, Fin 1, Fin 1]) - 1)))"
    by blast
  then have dev_flat: "stdDev exact [Fin 1, Fin 1, Fin 1] = Fin 0"
    unfolding mean_flat by (simp add: js_sub_def Math_pow_exact_square del: Math_pow.simps)
  from flat have "calculateSharpeRatio exact (JArray (map JNumber [Fin 1, Fin 1, Fin 1]))
      (JNumber (Fin (1 / 2))) =
      Inr (if js_lt (stdDev exact [Fin 1, Fin 1, Fin 1]) (Fin (fl_lit exact (1 / 10 ^ 10)))
           then (if js_gt (mean exact [Fin 1, Fin 1, Fin 1]) (Fin (1 / 2)) then PInf
                 else if js_lt (mean exact [Fin 1, Fin 1, Fin 1]) (Fin (1 / 2)) then NInf else Fin 0)
           else js_div exact (js_sub exact (mean exact [Fin 1, Fin 1, Fin 1]) (Fin (1 / 2)))
                  (stdDev exact [Fin 1, Fin 1, Fin 1]))"
    by (rule conjunct1)
  then have b: "calculateSharpeRatio exact
      (JArray [JNumber (Fin 1), JNumber (Fin 1), JNumber (Fin 1)]) (JNumber (Fin (1 / 2)))
      = Inr PInf"
    unfolding mean_flat dev_flat by (simp add: js_gt_def)
  from a b mean_spread dev_spread len ok rf show ?thesis by blast
qed

section \<open>XIRR: the search\<close>

subsection \<open>The loop, iteration by iteration\<close>

lemma bisect_step:
  assumes "iter < maxIterations"
  shows "fst (bisect ar cfs refDate iter low high evals) =
     (if converged ar cfs refDate (low, high) then Inr (midpoint ar low high)
      else fst (bisect ar cfs refDate (Suc iter) (fst (narrow ar cfs refDate (low, high)))
                  (snd (narrow ar cfs refDate (low, high))) (evals @ [midpoint ar low high])))"
  using assms
  by (subst bisect.simps) (simp add: converged_def narrow_def Let_def)

lemma bisect_done:
  assumes "\<not> iter < maxIterations"
  shows "fst (bisect ar cfs refDate iter low high evals) = final_check ar cfs refDate (low, high)"
  using assms
  by (subst bisect.simps) (simp add: final_check_def Let_def)


lemma bisect_exhaust:
  assumes "iter + n = maxIterations"
    and "\<forall>j<n. \<not> converged ar cfs refDate ((narrow ar cfs refDate ^^ j) (low, high))"
  shows "fst (bisect ar cfs refDate iter low high evals) =
     final_check ar cfs refDate ((narrow ar cfs refDate ^^ n) (low, high))"
  using assms
proof (induction n arbitrary: iter low high evals)
  case 0
  then show ?case by (simp add: bisect_done)
next
  case (Suc n)
  let ?b = "narrow ar cfs refDate (low, high)"
  from Suc.prems(2) have first: "\<not> converged ar cfs refDate (low, high)"
    by (metis funpow_0 zero_less_Suc)
  have shift: "(narrow ar cfs refDate ^^ Suc j) (low, high) = (narrow ar cfs refDate ^^ j) (fst ?b, snd ?b)" for j
    by (simp add: funpow_swap1)
  from Suc.prems(1) have "Suc iter + n = maxIterations" by simp
  moreover have "\<forall>j<n. \<not> converged ar cfs refDate ((narrow ar cfs refDate ^^ j) (fst ?b, snd ?b))"
  proof (intro allI impI)
    fix j assume "j < n"
    then have "Suc j < Suc n" by simp
    with Suc.prems(2) have "\<not> converged ar cfs refDate ((narrow ar cfs refDate ^^ Suc j) (low, high))"
      by blast
    then show "\<not> converged ar cfs refDate ((narrow ar cfs refDate ^^ j) (fst ?b, snd ?b))"
      unfolding shift .
  qed
  ultimately have "fst (bisect ar cfs refDate (Suc iter) (fst ?b) (snd ?b) (evals @ [midpoint ar low high])) =
     final_check ar cfs refDate ((narrow ar cfs refDate ^^ n) (fst ?b, snd ?b))"
    by (rule Suc.IH)
  moreover from Suc.prems(1) have "iter < maxIterations" by simp
  ultimately show ?case
    unfolding shift using first by (simp add: bisect_step)
qed

text \<open>The loop throws nothing but the non-convergence error, and every call of it
  evaluates \<open>npv\<close> at least once more.\<close>

lemma bisect_error:
  "fst (bisect ar cfs refDate iter low high evals) = Inl e \<Longrightarrow> e = DoesNotConverge"
proof (induction n \<equiv> "maxIterations - iter" arbitrary: iter low high evals)
  case 0
  then have "\<not> iter < maxIterations" by simp
  with 0 show ?case
    by (simp add: bisect_done final_check_def Let_def split: if_splits)
next
  case (Suc n)
  then have iter: "iter < maxIterations" and "n = maxIterations - Suc iter" by simp_all
  with Suc.hyps(1) Suc.prems show ?case
    by (simp add: bisect_step split: if_splits)
qed

lemma bisect_evals:
  "\<exists>more. snd (bisect ar cfs refDate iter low high evals) = evals @ more \<and> more \<noteq> []"
proof (induction n \<equiv> "maxIterations - iter" arbitrary: iter low high evals)
  case 0
  then have "\<not> iter < maxIterations" by simp
  then show ?case
    by (subst bisect.simps) (simp add: Let_def)
next
  case (Suc n)
  then have iter: "iter < maxIterations" and n: "n = maxIterations - (iter + 1)" by simp_all
  let ?mid = "midpoint ar low high"
  have later: "\<exists>more. snd (bisect ar cfs refDate (iter + 1) l h (evals @ [?mid])) = evals @ ?mid # more" for l h
  proof -
    from Suc.hyps(1) [OF n, of l h "evals @ [?mid]"] obtain more
      where "snd (bisect ar cfs refDate (iter + 1) l h (evals @ [?mid])) = (evals @ [?mid]) @ more"
      by blast
    then show ?thesis by simp
  qed
  show ?case
    using iter later [of ?mid high] later [of low ?mid]
    by (subst bisect.simps) (auto simp: Let_def)
qed

text \<open>The brackets of the statements are the brackets of the loop.\<close>

lemma bracket_at_narrow:
  "bracket_at ar cfs refDate k = (narrow ar cfs refDate ^^ k) (lowBound ar, highBound)"
  by (induction k) (simp_all add: lowBound_def highBound_def narrow_def midpoint_def Let_def)

lemma mid_at_midpoint:
  "mid_at ar cfs refDate k =
     midpoint ar (fst ((narrow ar cfs refDate ^^ k) (lowBound ar, highBound)))
       (snd ((narrow ar cfs refDate ^^ k) (lowBound ar, highBound)))"
  by (simp add: mid_at_def midpoint_def bracket_at_narrow)

subsection \<open>From the validated series to the search\<close>

lemma sort_key_nonempty:
  assumes "validate_cashflows input = Inr valid"
  shows "\<exists>rest. sort_key date valid = hd (sort_key date valid) # rest"
proof -
  from validate_cashflows_result [OF assms] have "2 \<le> length (sort_key date valid)" by simp
  then show ?thesis by (cases "sort_key date valid") auto
qed

lemma xirr_search_unfold:
  assumes "validate_cashflows input = Inr valid"
  shows "xirr_search ar valid =
     (let sorted = sort_key date valid; refDate = date (hd sorted)
      in if js_gt (js_mul ar (npv ar (lowBound ar) sorted refDate) (npv ar highBound sorted refDate)) (Fin 0)
         then (Inl NoSolutionInRange, [lowBound ar, highBound])
         else bisect ar sorted refDate 0 (lowBound ar) highBound [lowBound ar, highBound])"
proof -
  from sort_key_nonempty [OF assms] obtain rest
    where "sort_key date valid = hd (sort_key date valid) # rest" ..
  then show ?thesis
    unfolding xirr_search_def Let_def by (cases "sort_key date valid") simp_all
qed

lemma calculateXIRR_search:
  "validate_cashflows input = Inr valid \<Longrightarrow> calculateXIRR ar input = fst (xirr_search ar valid)"
  by (simp add: calculateXIRR_def)

lemma calculateXIRR_bisect:
  assumes "validate_cashflows input = Inr valid"
    and "\<not> js_gt (js_mul ar
             (npv ar (lowBound ar) (sort_key date valid) (date (hd (sort_key date valid))))
             (npv ar highBound (sort_key date valid) (date (hd (sort_key date valid))))) (Fin 0)"
  shows "calculateXIRR ar input =
     fst (bisect ar (sort_key date valid) (date (hd (sort_key date valid))) 0 (lowBound ar) highBound
            [lowBound ar, highBound])"
  using assms(2) unfolding calculateXIRR_search [OF assms(1)] xirr_search_unfold [OF assms(1)] Let_def
  by simp

subsection \<open>Series of two cashflows one year apart, in exact arithmetic\<close>

text \<open>A year of 365.25 days is 31557600000 milliseconds; with the first cashflow at the
  reference date and the second one such year later the exponents are \<open>0\<close> and \<open>1\<close>.\<close>

lemma midpoint_exact: "midpoint exact (Fin l) (Fin h) = Fin ((l + h) / 2)"
  by (simp add: midpoint_def)

lemma discount_two:
  assumes "- 1 < r"
  shows "npv exact (Fin r) [\<lparr>date = 0, amount = a\<rparr>, \<lparr>date = 31557600000, amount = b\<rparr>] 0
         = js_add exact (js_add exact (Fin 0) (js_div exact a (Fin 1))) (js_div exact b (Fin (1 + r)))"
proof -
  from assms have "0 < 1 + r" by simp
  then show ?thesis by (simp add: npv_def js_sub_def)
qed

lemma npv_two:
  assumes "- 1 < r"
  shows "npv exact (Fin r) [\<lparr>date = 0, amount = Fin a\<rparr>, \<lparr>date = 31557600000, amount = Fin b\<rparr>] 0
         = Fin (a + b / (1 + r))"
proof -
  from assms have "1 + r \<noteq> 0" by simp
  then show ?thesis unfolding discount_two [OF assms] by simp
qed

lemma validate_two:
  assumes "a \<noteq> NaN" "a \<noteq> Fin 0" "b \<noteq> NaN" "b \<noteq> Fin 0"
    and "js_lt a (Fin 0) \<or> js_lt b (Fin 0)" and "js_gt a (Fin 0) \<or> js_gt b (Fin 0)"
  shows "validate_cashflows (JArray
           [JObject [(''date'', JDate (Some 0)), (''amount'', JNumber a)],
            JObject [(''date'', JDate (Some 31557600000)), (''amount'', JNumber b)]])
         = Inr [\<lparr>date = 0, amount = a\<rparr>, \<lparr>date = 31557600000, amount = b\<rparr>]"
proof -
  from assms(1,3) have "\<not> js_isNaN a" "\<not> js_isNaN b" by (cases a; simp; cases b; simp)+
  with assms show ?thesis by (auto simp: validate_cashflows_def)
qed

lemma sort_two:
  "sort_key date [\<lparr>date = 0, amount = x\<rparr>, \<lparr>date = 31557600000, amount = y\<rparr>]
   = [\<lparr>date = 0, amount = x\<rparr>, \<lparr>date = 31557600000, amount = y\<rparr>]"
  by simp

subsection \<open>Receiving 1000 and repaying 1200 a year later\<close>

text \<open>The net present value \<open>1000 - 1200 / (1 + r)\<close> increases with the rate and is zero
  at \<open>r = 0.2\<close>. The first midpoint is above the root and has a positive value, so the loop
  raises \<open>low\<close>; every later midpoint is higher still.\<close>

lemma borrow_npv:
  assumes "- 0.999 \<le> l"
  shows "\<exists>v. npv exact (Fin ((l + 100000) / 2))
               [\<lparr>date = 0, amount = Fin 1000\<rparr>, \<lparr>date = 31557600000, amount = Fin (- 1200)\<rparr>] 0 = Fin v
             \<and> 999 < v"
proof -
  let ?m = "(l + 100000) / 2"
  from assms have m: "49999 < ?m" by simp
  then have "- 1 < ?m" by linarith
  then have val: "npv exact (Fin ?m)
      [\<lparr>date = 0, amount = Fin 1000\<rparr>, \<lparr>date = 31557600000, amount = Fin (- 1200)\<rparr>] 0
      = Fin (1000 + (- 1200) / (1 + ?m))"
    by (rule npv_two)
  from m have "0 < 1 + ?m" by linarith
  moreover from m have "1200 < 1 + ?m" by linarith
  ultimately have "1200 / (1 + ?m) < 1"
    by (simp only: divide_less_eq_1_pos)
  then have "999 < 1000 + (- 1200) / (1 + ?m)" by simp
  with val show ?thesis by blast
qed

lemma borrow_bracket:
  "\<exists>l. bracket_at exact [\<lparr>date = 0, amount = Fin 1000\<rparr>, \<lparr>date = 31557600000, amount = Fin (- 1200)\<rparr>] 0 k
         = (Fin l, Fin 100000) \<and> - 0.999 \<le> l"
proof (induction k)
  case 0
  show ?case by simp
next
  case (Suc k)
  then obtain l where l: "bracket_at exact [\<lparr>date = 0, amount = Fin 1000\<rparr>,
      \<lparr>date = 31557600000, amount = Fin (- 1200)\<rparr>] 0 k = (Fin l, Fin 100000)" "- 0.999 \<le> l"
    by blast
  from borrow_npv [OF l(2)] obtain v where v: "npv exact (Fin ((l + 100000) / 2))
      [\<lparr>date = 0, amount = Fin 1000\<rparr>, \<lparr>date = 31557600000, amount = Fin (- 1200)\<rparr>] 0 = Fin v"
      "999 < v" by blast
  from l(2) have "- 0.999 \<le> (l + 100000) / 2" by simp
  moreover from v have "bracket_at exact [\<lparr>date = 0, amount = Fin 1000\<rparr>,
      \<lparr>date = 31557600000, amount = Fin (- 1200)\<rparr>] 0 (Suc k) = (Fin ((l + 100000) / 2), Fin 100000)"
    unfolding bracket_at.simps l(1) by (simp add: Let_def js_gt_def)
  ultimately show ?case by blast
qed

lemma borrow_mid:
  "\<exists>v. npv exact (mid_at exact [\<lparr>date = 0, amount = Fin 1000\<rparr>, \<lparr>date = 31557600000, amount = Fin (- 1200)\<rparr>] 0 k)
          [\<lparr>date = 0, amount = Fin 1000\<rparr>, \<lparr>date = 31557600000, amount = Fin (- 1200)\<rparr>] 0 = Fin v
        \<and> 999 < v"
proof -
  from borrow_bracket [of k] obtain l where l: "bracket_at exact [\<lparr>date = 0, amount = Fin 1000\<rparr>,
      \<lparr>date = 31557600000, amount = Fin (- 1200)\<rparr>] 0 k = (Fin l, Fin 100000)" "- 0.999 \<le> l"
    by blast
  from borrow_npv [OF l(2)] show ?thesis
    unfolding mid_at_def l(1) by simp
qed

lemma borrow_diverges:
  "fst (bisect exact [\<lparr>date = 0, amount = Fin 1000\<rparr>, \<lparr>date = 31557600000, amount = Fin (- 1200)\<rparr>] 0 0
          (lowBound exact) highBound evals) = Inl DoesNotConverge"
proof -
  let ?cfs = "[\<lparr>date = 0, amount = Fin 1000\<rparr>, \<lparr>date = 31557600000, amount = Fin (- 1200)\<rparr>]"
  have never: "\<not> converged exact ?cfs 0 ((narrow exact ?cfs 0 ^^ j) (lowBound exact, highBound))" for j
    using borrow_mid [of j] unfolding converged_def mid_at_midpoint [symmetric]
    by (auto simp: tolerance_def)
  have "0 + 100 = maxIterations" by (simp add: maxIterations_def)
  moreover from never
  have "\<forall>j<100. \<not> converged exact ?cfs 0 ((narrow exact ?cfs 0 ^^ j) (lowBound exact, highBound))"
    by blast
  ultimately have "fst (bisect exact ?cfs 0 0 (lowBound exact) highBound evals) =
      final_check exact ?cfs 0 ((narrow exact ?cfs 0 ^^ 100) (lowBound exact, highBound))"
    by (rule bisect_exhaust)
  moreover from borrow_mid [of 100]
  have "final_check exact ?cfs 0 ((narrow exact ?cfs 0 ^^ 100) (lowBound exact, highBound))
      = Inl DoesNotConverge"
    unfolding final_check_def mid_at_midpoint [symmetric]
    by (auto simp: Let_def js_gt_def finalTolerance_def)
  ultimately show ?thesis by simp
qed

subsection \<open>Paying 1000 and receiving 1200 a year later\<close>

lemma lend_converges:
  "fst (bisect exact [\<lparr>date = 0, amount = Fin (- 1000)\<rparr>, \<lparr>date = 31557600000, amount = Fin 1200\<rparr>] 0 0
          (lowBound exact) highBound evals) = Inr (Fin (281474976712297 / 1407374883553280))"
  by (simp add: bisect_step converged_def narrow_def midpoint_exact npv_two tolerance_def js_gt_def
      maxIterations_def lowBound_def highBound_def Let_def)

subsection \<open>An infinite inflow and an infinite outflow\<close>






subsection \<open>The claims about the search\<close>





text \<open>
  Claim C2. For every series that passes validation, with \<open>cfs\<close> its copies sorted by
  date and \<open>refDate\<close> the earliest date, in every arithmetic: \<open>calculateXIRR\<close> fails with
  the no-solution error exactly when the product \<open>npv(low) * npv(high)\<close>, as the arithmetic
  computes it, is \<open>> 0\<close>; the first two rates at which \<open>npv\<close> is called are \<open>-0.999\<close> and
  \<open>100000\<close>; when the product is \<open>> 0\<close> these are the only calls (no iteration of the
  bisection has run), and when it is not, the bisection evaluates at least one further
  rate.
\<close>

theorem bracket_check:
  fixes ar :: arith and input :: jsval and valid :: "cashflow list"
  defines "cfs \<equiv> sort_key date valid"
  defines "refDate \<equiv> date (hd cfs)"
  defines "product \<equiv> js_mul ar (npv ar (Fin (fl_lit ar (- 0.999))) cfs refDate)
                                 (npv ar (Fin 100000) cfs refDate)"
  assumes accepted: "validate_cashflows input = Inr valid"
  shows "(calculateXIRR ar input = Inl NoSolutionInRange \<longleftrightarrow> js_gt product (Fin 0)) \<and>
         calculateXIRR ar input = fst (xirr_search ar valid) \<and>
         take 2 (snd (xirr_search ar valid)) = [Fin (fl_lit ar (- 0.999)), Fin 100000] \<and>
         (if js_gt product (Fin 0)
          then snd (xirr_search ar valid) = [Fin (fl_lit ar (- 0.999)), Fin 100000]
          else 2 < length (snd (xirr_search ar valid)))"
proof -
  let ?low = "Fin (fl_lit ar (- 0.999))" and ?high = "Fin 100000"
  note search = xirr_search_unfold [OF accepted, of ar, unfolded Let_def lowBound_def highBound_def,
      folded cfs_def, folded refDate_def, folded product_def]
  note run = calculateXIRR_search [OF accepted, of ar]
  show ?thesis
  proof (cases "js_gt product (Fin 0)")
    case True
    with search have "xirr_search ar valid = (Inl NoSolutionInRange, [?low, ?high])" by simp
    with True run show ?thesis by simp
  next
    case False
    with search have loop: "xirr_search ar valid = bisect ar cfs refDate 0 ?low ?high [?low, ?high]"
      by simp
    from bisect_evals [of ar cfs refDate 0 ?low ?high "[?low, ?high]"] obtain more
      where more: "snd (bisect ar cfs refDate 0 ?low ?high [?low, ?high]) = [?low, ?high] @ more"
        "more \<noteq> []" by blast
    have "calculateXIRR ar input \<noteq> Inl NoSolutionInRange"
    proof
      assume "calculateXIRR ar input = Inl NoSolutionInRange"
      with run loop have "fst (bisect ar cfs refDate 0 ?low ?high [?low, ?high]) = Inl NoSolutionInRange"
        by simp
      from bisect_error [OF this] show False by simp
    qed
    with False run loop more show ?thesis by simp
  qed
qed

theorem bracket_check_witness:
  "validate_cashflows (JArray
      [JObject [(''date'', JDate (Some 0)), (''amount'', JNumber (Fin (- 2000)))],
       JObject [(''date'', JDate (Some 31557600000)), (''amount'', JNumber (Fin 1))]])
     = Inr [\<lparr>date = 0, amount = Fin (- 2000)\<rparr>, \<lparr>date = 31557600000, amount = Fin 1\<rparr>] \<and>
   calculateXIRR exact (JArray
      [JObject [(''date'', JDate (Some 0)), (''amount'', JNumber (Fin (- 2000)))],
       JObject [(''date'', JDate (Some 31557600000)), (''amount'', JNumber (Fin 1))]])
     = Inl NoSolutionInRange \<and>
   snd (xirr_search exact [\<lparr>date = 0, amount = Fin (- 2000)\<rparr>, \<lparr>date = 31557600000, amount = Fin 1\<rparr>])
     = [Fin (- 0.999), Fin 100000]"
proof -
  let ?valid = "[\<lparr>date = 0, amount = Fin (- 2000)\<rparr>, \<lparr>date = 31557600000, amount = Fin 1\<rparr>]"
  have accepted: "validate_cashflows (JArray
      [JObject [(''date'', JDate (Some 0)), (''amount'', JNumber (Fin (- 2000)))],
       JObject [(''date'', JDate (Some 31557600000)), (''amount'', JNumber (Fin 1))]]) = Inr ?valid"
    by (rule validate_two) (simp_all add: js_gt_def)
  have product: "js_gt (js_mul exact
      (npv exact (Fin (fl_lit exact (- 0.999))) (sort_key date ?valid) (date (hd (sort_key date ?valid))))
      (npv exact (Fin 100000) (sort_key date ?valid) (date (hd (sort_key date ?valid))))) (Fin 0)"
    unfolding sort_two by (simp add: npv_two js_gt_def)
  from bracket_check [OF accepted, of exact] product accepted show ?thesis
    by (simp del: sort_key_simps)
qed

text \<open>
  Claim C3 says that negating every amount of a series on which \<open>calculateXIRR\<close>
  returns a rate gives a series on which it returns the same rate. Paying 1000 and
  receiving 1200 one year later returns a rate within \<open>10\<^sup>-\<^sup>9\<close> of \<open>0.2\<close> (at iteration
  44). The negated series, receiving 1000 and repaying 1200, passes validation and the
  bracket check, but its value increases with the rate while the update rule
  \<open>if (midNpv > 0) low = mid else high = mid\<close> assumes that it decreases: the loop moves
  away from the root and \<open>calculateXIRR\<close> fails with the non-convergence error, although
  the root \<open>0.2\<close> lies inside the bracket that the check before the loop accepted. The
  two runs are computed in exact arithmetic; in binary64 every midpoint of the negated
  series likewise has a value above 999.
\<close>

theorem negated_series_does_not_converge:
  "calculateXIRR exact (JArray
      [JObject [(''date'', JDate (Some 0)), (''amount'', JNumber (Fin (- 1000)))],
       JObject [(''date'', JDate (Some 31557600000)), (''amount'', JNumber (Fin 1200))]])
     = Inr (Fin (281474976712297 / 1407374883553280)) \<and>
   \<bar>281474976712297 / 1407374883553280 - 0.2 :: real\<bar> < 1 / 10 ^ 9 \<and>
   calculateXIRR exact (JArray
      [JObject [(''date'', JDate (Some 0)), (''amount'', JNumber (Fin 1000))],
       JObject [(''date'', JDate (Some 31557600000)), (''amount'', JNumber (Fin (- 1200)))]])
     = Inl DoesNotConverge"
proof -
  let ?lend = "[\<lparr>date = 0, amount = Fin (- 1000)\<rparr>, \<lparr>date = 31557600000, amount = Fin 1200\<rparr>]"
  let ?borrow = "[\<lparr>date = 0, amount = Fin 1000\<rparr>, \<lparr>date = 31557600000, amount = Fin (- 1200)\<rparr>]"
  have lend: "validate_cashflows (JArray
      [JObject [(''date'', JDate (Some 0)), (''amount'', JNumber (Fin (- 1000)))],
       JObject [(''date'', JDate (Some 31557600000)), (''amount'', JNumber (Fin 1200))]]) = Inr ?lend"
    by (rule validate_two) (simp_all add: js_gt_def)
  have "\<not> js_gt (js_mul exact
      (npv exact (lowBound exact) (sort_key date ?lend) (date (hd (sort_key date ?lend))))
      (npv exact highBound (sort_key date ?lend) (date (hd (sort_key date ?lend))))) (Fin 0)"
    unfolding sort_two by (simp add: npv_two js_gt_def lowBound_def highBound_def)
  from calculateXIRR_bisect [OF lend this]
  have first: "calculateXIRR exact (JArray
      [JObject [(''date'', JDate (Some 0)), (''amount'', JNumber (Fin (- 1000)))],
       JObject [(''date'', JDate (Some 31557600000)), (''amount'', JNumber (Fin 1200))]])
     = Inr (Fin (281474976712297 / 1407374883553280))"
    unfolding sort_two list.sel cashflow.select_convs lend_converges .
  have borrow: "validate_cashflows (JArray
      [JObject [(''date'', JDate (Some 0)), (''amount'', JNumber (Fin 1000))],
       JObject [(''date'', JDate (Some 31557600000)), (''amount'', JNumber (Fin (- 1200)))]]) = Inr ?borrow"
    by (rule validate_two) (simp_all add: js_gt_def)
  have "\<not> js_gt (js_mul exact
      (npv exact (lowBound exact) (sort_key date ?borrow) (date (hd (sort_key date ?borrow))))
      (npv exact highBound (sort_key date ?borrow) (date (hd (sort_key date ?borrow))))) (Fin 0)"
    unfolding sort_two by (simp add: npv_two js_gt_def lowBound_def highBound_def)
  from calculateXIRR_bisect [OF borrow this]
  have second: "calculateXIRR exact (JArray
      [JObject [(''date'', JDate (Some 0)), (''amount'', JNumber (Fin 1000))],
       JObject [(''date'', JDate (Some 31557600000)), (''amount'', JNumber (Fin (- 1200)))]])
     = Inl DoesNotConverge"
    unfolding sort_two list.sel cashflow.select_convs borrow_diverges .
  have "\<bar>281474976712297 / 1407374883553280 - 0.2 :: real\<bar> < 1 / 10 ^ 9" by simp
  with first second show ?thesis by blast
qed

end
